theory Spec2Isabelle
  imports Complex_Main
begin

section \<open>Numbers and the render surface\<close>

text \<open>
  A JavaScript number is a real number or NaN. Rounding, overflow and the infinities are
  not represented, and a division by zero is the one of the real numbers of HOL: the
  Viewer divides by its divider only, which is a power of 2 or NaN, and by the frame's
  width. NaN is kept, because the program makes one: \<open>normalizeWheelDelta\<close> returns NaN
  for a wheel event without \<open>wheelDelta\<close> and \<open>detail\<close>, and \<open>wheelHandler\<close> gives it to
  the zoom callback. Arithmetic on NaN gives NaN, every comparison with NaN is false, and
  \<open>Math.min\<close>, \<open>Math.max\<close> and \<open>Math.pow\<close> give NaN for a NaN argument.

  The positions of the pointer and of the touch points, and the numbers the wheel
  normalizer computes, are real numbers: \<open>Math.pow(x, 2)\<close> is \<open>x ^ 2\<close> and \<open>Math.sqrt\<close>
  is \<open>sqrt\<close> there. A property of an event that may be missing (\<open>undefined\<close>) is an
  \<open>option\<close>.
\<close>

datatype number = Number real | NaN

text \<open>
  The operators of JavaScript on numbers; \<open>inverse\<close> is there for the division sign
  only.
\<close>

instantiation number :: "{zero, one, plus, minus, uminus, times, inverse, ord}"
begin

definition zero_number :: number where
  "zero_number = Number 0"

definition one_number :: number where
  "one_number = Number 1"

fun plus_number :: "number \<Rightarrow> number \<Rightarrow> number" where
  "plus_number (Number a) (Number b) = Number (a + b)"
| "plus_number _ _ = NaN"

fun minus_number :: "number \<Rightarrow> number \<Rightarrow> number" where
  "minus_number (Number a) (Number b) = Number (a - b)"
| "minus_number _ _ = NaN"

fun uminus_number :: "number \<Rightarrow> number" where
  "uminus_number (Number a) = Number (- a)"
| "uminus_number NaN = NaN"

fun times_number :: "number \<Rightarrow> number \<Rightarrow> number" where
  "times_number (Number a) (Number b) = Number (a * b)"
| "times_number _ _ = NaN"

fun divide_number :: "number \<Rightarrow> number \<Rightarrow> number" where
  "divide_number (Number a) (Number b) = Number (a / b)"
| "divide_number _ _ = NaN"

fun inverse_number :: "number \<Rightarrow> number" where
  "inverse_number (Number a) = Number (inverse a)"
| "inverse_number NaN = NaN"

fun less_number :: "number \<Rightarrow> number \<Rightarrow> bool" where
  "less_number (Number a) (Number b) = (a < b)"
| "less_number _ _ = False"

fun less_eq_number :: "number \<Rightarrow> number \<Rightarrow> bool" where
  "less_eq_number (Number a) (Number b) = (a \<le> b)"
| "less_eq_number _ _ = False"

instance ..

end

instance number :: numeral
proof
  fix a b c :: number
  show "a + b + c = a + (b + c)"
    by (cases a; cases b; cases c) simp_all
qed

fun Math_min :: "number \<Rightarrow> number \<Rightarrow> number" where
  "Math_min (Number a) (Number b) = Number (min a b)"
| "Math_min _ _ = NaN"

fun Math_max :: "number \<Rightarrow> number \<Rightarrow> number" where
  "Math_max (Number a) (Number b) = Number (max a b)"
| "Math_max _ _ = NaN"

text \<open>\<open>Math.pow(2, y)\<close>, the only power the Viewer takes.\<close>

fun Math_pow_2 :: "number \<Rightarrow> number" where
  "Math_pow_2 (Number y) = Number (2 powr y)"
| "Math_pow_2 NaN = NaN"

text \<open>
  The SVG element \<open>doc\<close> is seen through the only thing the Viewer does to it,
  \<open>setAttribute('viewBox', ...)\<close>: it is the list of the rectangles it was given, the
  latest last. The attribute's text \<open>topX + ' ' + topY + ' ' + viewWidth + ' ' + viewHeight\<close>
  is kept as the four numbers it is written from.
\<close>

type_synonym viewBox = "number \<times> number \<times> number \<times> number"

section \<open>Viewer (svgpanandzoom.js, lines 49-163)\<close>

record viewer =
  maxWidth :: number
  maxHeight :: number
  centerX :: number
  centerY :: number
  zoom :: number
  divider :: number
  doc :: "viewBox list"
  containerRatio :: number

text \<open>
  The constructor. \<open>offsetWidth\<close> is \<open>document.defaultView.frameElement.offsetWidth\<close>,
  the width in pixels of the frame that holds the document.
\<close>

definition Viewer :: "viewBox list \<Rightarrow> number \<Rightarrow> number \<Rightarrow> number \<Rightarrow> viewer" where
  "Viewer elt width height offsetWidth =
     \<lparr> maxWidth = width,
       maxHeight = height,
       centerX = width / 2,
       centerY = height / 2,
       zoom = 1,
       divider = 1,
       doc = elt,
       containerRatio = width / offsetWidth \<rparr>"

definition redraw :: "viewer \<Rightarrow> viewer" where
  "redraw this =
     (let viewWidth = maxWidth this / divider this;
          viewHeight = maxHeight this / divider this;
          topX = centerX this - viewWidth / 2;
          topY = centerY this - viewHeight / 2
      in this\<lparr>doc := doc this @ [(topX, topY, viewWidth, viewHeight)]\<rparr>)"

definition panningSet :: "number \<Rightarrow> number \<Rightarrow> viewer \<Rightarrow> viewer" where
  "panningSet deltaX deltaY this =
     redraw (this\<lparr>centerX := centerX this + deltaX * containerRatio this / divider this,
                  centerY := centerY this + deltaY * containerRatio this / divider this\<rparr>)"

definition zoomSet :: "number \<Rightarrow> viewer \<Rightarrow> viewer" where
  "zoomSet delta this =
     (let z = Math_min 10 (Math_max 1 (zoom this + delta))
      in redraw (this\<lparr>zoom := z, divider := Math_pow_2 (z - 1)\<rparr>))"

text \<open>
  The states a Viewer goes through: the constructor's, then any sequence of pans and
  zooms. The frame's width is not zero.
\<close>

inductive reachable :: "viewer \<Rightarrow> bool" where
  init: "offsetWidth \<noteq> 0 \<Longrightarrow> reachable (Viewer elt width height offsetWidth)"
| pan: "reachable v \<Longrightarrow> reachable (panningSet deltaX deltaY v)"
| zoom: "reachable v \<Longrightarrow> reachable (zoomSet delta v)"

section \<open>What a handler does to the outside\<close>

text \<open>
  A handler changes its own fields, may call \<open>event.preventDefault()\<close>, and may call
  \<open>this.panCallback\<close> or \<open>this.zoomCallback\<close>. Its calls are returned as a list, in the
  order they are made. The pan callback is only ever given differences of positions and
  constants, which are real numbers; the zoom callback is also given what the wheel
  normalizer returns, which may be NaN. Reading a property of \<open>null\<close> or
  \<open>undefined\<close> throws a \<open>TypeError\<close>, which ends the handler.
\<close>

datatype action = preventDefault | panCallback real real | zoomCallback number

datatype error = TypeError

fun panCalls :: "action list \<Rightarrow> (real \<times> real) list" where
  "panCalls [] = []"
| "panCalls (panCallback x y # as) = (x, y) # panCalls as"
| "panCalls (preventDefault # as) = panCalls as"
| "panCalls (zoomCallback d # as) = panCalls as"

fun zoomCalls :: "action list \<Rightarrow> number list" where
  "zoomCalls [] = []"
| "zoomCalls (zoomCallback d # as) = d # zoomCalls as"
| "zoomCalls (preventDefault # as) = zoomCalls as"
| "zoomCalls (panCallback x y # as) = zoomCalls as"

definition consumed :: "action list \<Rightarrow> bool" where
  "consumed as = (preventDefault \<in> set as)"

text \<open>
  \<open>SVGPAZ.init\<close> (lines 613-631) binds the two callbacks of every handler to one Viewer:
  \<open>panCallback\<close> is its \<open>panningSet\<close>, \<open>zoomCallback\<close> its \<open>zoomSet\<close>.
\<close>

fun perform :: "action \<Rightarrow> viewer \<Rightarrow> viewer" where
  "perform preventDefault viewer = viewer"
| "perform (panCallback deltaX deltaY) viewer = panningSet (Number deltaX) (Number deltaY) viewer"
| "perform (zoomCallback delta) viewer = zoomSet delta viewer"

text \<open>
  JavaScript's truthiness of a number that may be missing: present and not zero.
  \<open>truthyValue\<close> is the number a passed test \<open>if(x)\<close> or \<open>x && ...\<close> goes on with.
\<close>

definition truthy :: "'a::zero option \<Rightarrow> bool" where
  "truthy x = (case x of None \<Rightarrow> False | Some a \<Rightarrow> a \<noteq> 0)"

definition truthyValue :: "'a::zero option \<Rightarrow> 'a option" where
  "truthyValue x = (if truthy x then x else None)"

section \<open>MouseHandler (lines 175-370)\<close>

record mouse_handler =
  dragging :: bool
  originX :: real
  originY :: real

record mouse_event =
  clientX :: real
  clientY :: real

record wheel_event =
  detail :: "real option"
  wheelDelta :: "real option"

definition MouseHandler :: mouse_handler where
  "MouseHandler = \<lparr> dragging = False, originX = 0, originY = 0 \<rparr>"

text \<open>
  \<open>normalizeWheelDelta\<close> (lines 261-300), in its four steps. \<open>window_event\<close> is the
  global \<open>window.event\<close>, missing in some browsers.
\<close>

definition equalizeEvent :: "wheel_event option \<Rightarrow> wheel_event \<Rightarrow> wheel_event" where
  "equalizeEvent window_event event =
     (case window_event of Some e \<Rightarrow> e | None \<Rightarrow> event)"

text \<open>
  Lines 274-285. The only value that is not a number comes from here:
  \<open>wheelDelta / 120\<close> with \<open>wheelDelta\<close> missing is NaN, the result \<open>None\<close>.
\<close>

definition normalizeDelta :: "wheel_event \<Rightarrow> real option" where
  "normalizeDelta event =
     (case truthyValue (detail event) of
        Some d \<Rightarrow>
          (case truthyValue (wheelDelta event) of
             Some w \<Rightarrow>
               (let f = w / d in
                if f \<noteq> 0 then Some (d / f) else Some (- d / 1.35))
           | None \<Rightarrow> Some (- d / 1.35))
      | None \<Rightarrow>
          (case wheelDelta event of None \<Rightarrow> None | Some w \<Rightarrow> Some (w / 120)))"

text \<open>Lines 287-294, with \<open>n = 225\<close> and \<open>n1 = n - 1\<close>.\<close>

definition quadraticScale :: "real \<Rightarrow> real" where
  "quadraticScale delta =
     (let n = 225; n1 = n - 1 in
      if delta < 1 then
        (if delta < - 1 then (- (delta ^ 2) - n1) / n else delta)
      else (delta ^ 2 + n1) / n)"

text \<open>Lines 296-297.\<close>

definition boundDelta :: "real \<Rightarrow> real" where
  "boundDelta delta = min (max (delta / 2) (- 1)) 1"

text \<open>
  NaN goes through the last two steps as NaN: \<open>NaN < 1\<close> is false, and arithmetic,
  \<open>Math.max\<close> and \<open>Math.min\<close> on NaN give NaN.
\<close>

definition normalizeWheelDelta :: "wheel_event option \<Rightarrow> wheel_event \<Rightarrow> real option" where
  "normalizeWheelDelta window_event event =
     (case normalizeDelta (equalizeEvent window_event event) of
        None \<Rightarrow> None
      | Some delta \<Rightarrow> Some (boundDelta (quadraticScale delta)))"

text \<open>
  \<open>wheelHandler\<close> (lines 308-313) gives the normalized delta to the zoom callback as it
  is, NaN included.
\<close>

definition wheelHandler :: "wheel_event option \<Rightarrow> wheel_event \<Rightarrow> action list" where
  "wheelHandler window_event event =
     (let delta = (case normalizeWheelDelta window_event event of
                     None \<Rightarrow> NaN
                   | Some d \<Rightarrow> Number d)
      in [zoomCallback delta])"

definition mouseUpHandler :: "mouse_event \<Rightarrow> mouse_handler \<Rightarrow> mouse_handler \<times> action list" where
  "mouseUpHandler event this = (this\<lparr>dragging := False\<rparr>, [preventDefault])"

definition mouseDownHandler :: "mouse_event \<Rightarrow> mouse_handler \<Rightarrow> mouse_handler \<times> action list" where
  "mouseDownHandler event this =
     (this\<lparr>dragging := True, originX := clientX event, originY := clientY event\<rparr>,
      [preventDefault])"

definition mouseMoveHandler :: "mouse_event \<Rightarrow> mouse_handler \<Rightarrow> mouse_handler \<times> action list" where
  "mouseMoveHandler event this =
     (if dragging this then
        (this\<lparr>originX := clientX event, originY := clientY event\<rparr>,
         [preventDefault,
          panCallback (originX this - clientX event) (originY this - clientY event)])
      else (this, []))"

section \<open>KeyboardHandler (lines 383-453)\<close>

record key_event =
  which :: "nat option"
  keyCode :: "nat option"

definition keydownHandler :: "key_event \<Rightarrow> action list" where
  "keydownHandler event =
     (let charCode = (if truthy (which event) then which event else keyCode event) in
      if charCode = Some 107 then [zoomCallback 1]
      else if charCode = Some 109 then [zoomCallback (- 1)]
      else if charCode = Some 39 then [panCallback 10 0]
      else if charCode = Some 37 then [panCallback (- 10) 0]
      else if charCode = Some 38 then [panCallback 0 (- 10)]
      else if charCode = Some 40 then [panCallback 0 10]
      else [])"

section \<open>TouchHandler (lines 466-605)\<close>

record touch =
  pageX :: real
  pageY :: real

record touch_event =
  touches :: "touch list"

text \<open>
  \<open>fingers\<close> is a JavaScript array, \<open>new Array(null, null)\<close> at first; \<open>None\<close> is
  \<open>null\<close> or \<open>undefined\<close>. Reading past the end gives \<open>undefined\<close>; writing past the
  end extends the array.
\<close>

record touch_handler =
  mode :: nat
  fingers :: "touch option list"

definition TouchHandler :: touch_handler where
  "TouchHandler = \<lparr> mode = 0, fingers = [None, None] \<rparr>"

definition item :: "'a list \<Rightarrow> nat \<Rightarrow> 'a option" where
  "item xs i = (if i < length xs then Some (xs ! i) else None)"

definition element :: "'a option list \<Rightarrow> nat \<Rightarrow> 'a option" where
  "element xs i = (if i < length xs then xs ! i else None)"

definition assign :: "'a option list \<Rightarrow> nat \<Rightarrow> 'a option \<Rightarrow> 'a option list" where
  "assign xs i v =
     (if i < length xs then xs[i := v]
      else xs @ replicate (i - length xs) None @ [v])"

text \<open>The loop of lines 541-543, from \<open>i\<close> on.\<close>

function keepFingers :: "nat \<Rightarrow> touch_event \<Rightarrow> touch_handler \<Rightarrow> touch_handler" where
  "keepFingers i event this =
     (if i < mode this
      then keepFingers (i + 1) event
             (this\<lparr>fingers := assign (fingers this) i (item (touches event) i)\<rparr>)
      else this)"
  by pat_completeness auto
termination
  by (relation "measure (\<lambda>(i, event, this). mode this - i)") auto

definition touchStartHandler ::
  "touch_event \<Rightarrow> touch_handler \<Rightarrow> touch_handler \<times> action list \<times> error option" where
  "touchStartHandler event this =
     (let this = this\<lparr>mode := length (touches event)\<rparr> in
      if mode this \<noteq> 1 \<and> mode this \<noteq> 2 then (this\<lparr>mode := 0\<rparr>, [], None)
      else (keepFingers 0 event this, [], None))"

definition touchMoveHandler ::
  "touch_event \<Rightarrow> touch_handler \<Rightarrow> touch_handler \<times> action list \<times> error option" where
  "touchMoveHandler event this =
     (if mode this = 1 then
        (case (element (fingers this) 0, item (touches event) 0) of
           (Some f0, Some t0) \<Rightarrow>
             (this\<lparr>fingers := assign (fingers this) 0 (Some t0)\<rparr>,
              [preventDefault, panCallback (pageX f0 - pageX t0) (pageY f0 - pageY t0)],
              None)
         | _ \<Rightarrow> (this, [preventDefault], Some TypeError))
      else if mode this = 2 then
        (case (element (fingers this) 0, element (fingers this) 1,
               item (touches event) 0, item (touches event) 1) of
           (Some f0, Some f1, Some t0, Some t1) \<Rightarrow>
             (let previousDistance =
                    sqrt ((pageX f0 - pageX f1) ^ 2 + (pageY f0 - pageY f1) ^ 2);
                  currentDistance =
                    sqrt ((pageX t0 - pageX t1) ^ 2 + (pageY t0 - pageY t1) ^ 2);
                  distance = (currentDistance - previousDistance) / 100
              in (this\<lparr>fingers := assign (assign (fingers this) 0 (Some t0)) 1 (Some t1)\<rparr>,
                  [preventDefault, zoomCallback (Number distance)],
                  None))
         | _ \<Rightarrow> (this, [preventDefault], Some TypeError))
      else (this, [], None))"

definition touchEndHandler ::
  "touch_event \<Rightarrow> touch_handler \<Rightarrow> touch_handler \<times> action list \<times> error option" where
  "touchEndHandler = touchStartHandler"

text \<open>
  A run of touch-move events, one handler call each. An exception ends the call that
  threw it, not the run: the next event is handled from the state left behind.
\<close>

fun touchMoves ::
  "touch_event list \<Rightarrow> touch_handler \<Rightarrow> touch_handler \<times> action list \<times> error option list" where
  "touchMoves [] this = (this, [], [])"
| "touchMoves (event # events) this =
     (case touchMoveHandler event this of (this1, acts1, err) \<Rightarrow>
        (case touchMoves events this1 of (this2, acts2, errs) \<Rightarrow>
           (this2, acts1 @ acts2, err # errs)))"

text \<open>
  The states a tracker goes through: the constructor's, then any sequence of touch-start,
  touch-move and touch-end events, as \<open>listenOn\<close> (lines 504-521) registers them.
\<close>

inductive tracked :: "touch_handler \<Rightarrow> bool" where
  new: "tracked TouchHandler"
| touchstart: "tracked h \<Longrightarrow> tracked (fst (touchStartHandler e h))"
| touchmove: "tracked h \<Longrightarrow> tracked (fst (touchMoveHandler e h))"
| touchend: "tracked h \<Longrightarrow> tracked (fst (touchEndHandler e h))"

text \<open>
  The invariant of the tracker: the mode is 0, 1 or 2, and the finger slots below the
  mode are filled.
\<close>

definition fingers_kept :: "touch_handler \<Rightarrow> bool" where
  "fingers_kept h =
     (mode h \<le> 2
      \<and> (mode h = 0 \<or> element (fingers h) 0 \<noteq> None)
      \<and> (mode h \<noteq> 2 \<or> element (fingers h) 1 \<noteq> None))"

section \<open>Properties of numbers\<close>

lemma number_zero [simp]: "(0 :: number) = Number 0"
  by (simp add: zero_number_def)

lemma number_one [simp]: "(1 :: number) = Number 1"
  by (simp add: one_number_def)

lemma number_numeral [simp]: "(numeral k :: number) = Number (numeral k)"
  by (induction k) (simp_all only: numeral.simps one_number_def plus_number.simps)

lemma not_NaN: "x \<noteq> NaN \<longleftrightarrow> (\<exists>r. x = Number r)"
  by (cases x) simp_all

section \<open>Properties of the Viewer\<close>

lemma redraw_fields [simp]:
  "maxWidth (redraw v) = maxWidth v" "maxHeight (redraw v) = maxHeight v"
  "centerX (redraw v) = centerX v" "centerY (redraw v) = centerY v"
  "zoom (redraw v) = zoom v" "divider (redraw v) = divider v"
  "containerRatio (redraw v) = containerRatio v"
  by (simp_all add: redraw_def Let_def)

lemma redraw_doc:
  "doc (redraw v) =
     doc v @ [(centerX v - maxWidth v / divider v / 2, centerY v - maxHeight v / divider v / 2,
               maxWidth v / divider v, maxHeight v / divider v)]"
  by (simp add: redraw_def Let_def)

lemma zoomSet_zoom: "zoom (zoomSet delta v) = Math_min 10 (Math_max 1 (zoom v + delta))"
  by (simp add: zoomSet_def Let_def)

lemma zoomSet_divider: "divider (zoomSet delta v) = Math_pow_2 (zoom (zoomSet delta v) - 1)"
  by (simp add: zoomSet_def Let_def)

lemma zoomSet_Number:
  "zoom (zoomSet (Number d) (v\<lparr>zoom := Number z\<rparr>)) = Number (min 10 (max 1 (z + d)))"
  by (simp add: zoomSet_zoom)

lemma zoomSet_NaN: "zoom (zoomSet NaN v) = NaN" "divider (zoomSet NaN v) = NaN"
  by (cases "zoom v"; simp add: zoomSet_def Let_def)+

lemma zoomSet_from_NaN:
  "zoom v = NaN \<Longrightarrow> zoom (zoomSet delta v) = NaN \<and> divider (zoomSet delta v) = NaN"
  by (simp add: zoomSet_def Let_def)

text \<open>
  The invariant of the data model: in every reachable state the divider is
  \<open>Math.pow(2, zoom - 1)\<close>, and the zoom level is NaN or between 1 and 10. So the divider
  is NaN or positive: no division of the Viewer is by zero.
\<close>

lemma reachable_invariant:
  "reachable v \<Longrightarrow>
   divider v = Math_pow_2 (zoom v - 1) \<and> (zoom v = NaN \<or> 1 \<le> zoom v \<and> zoom v \<le> 10)"
proof (induction rule: reachable.induct)
  case (init offsetWidth elt width height)
  show ?case by (simp add: Viewer_def)
next
  case (pan v deltaX deltaY)
  then show ?case by (simp add: panningSet_def)
next
  case (zoom v delta)
  show ?case
    by (cases "zoom v + delta") (simp_all add: zoomSet_zoom zoomSet_divider)
qed

lemma reachable_divider: "reachable v \<Longrightarrow> divider v = NaN \<or> 0 < divider v"
  using reachable_invariant [of v] by (cases "zoom v") auto

text \<open>
  C1, as the code has it. From a state whose zoom level is a number, and for a delta that
  is a number, the zoom level after \<open>zoomSet delta\<close> lies in [1, 10] and the divider is 2
  to the power zoom - 1. A request that would leave [1, 10] is clamped to the nearer end,
  one that stays inside is taken as it is, and there is no error: \<open>zoomSet\<close> always
  returns a state. From zoom 1, \<open>zoomSet 1\<close> gives zoom 2 and divider 2; from zoom 2,
  \<open>zoomSet 20\<close> gives zoom 10 and divider 512.
\<close>

theorem zoomSet_clamped:
  assumes "zoom v \<noteq> NaN" and "delta \<noteq> NaN"
  shows "1 \<le> zoom (zoomSet delta v) \<and> zoom (zoomSet delta v) \<le> 10
   \<and> divider (zoomSet delta v) = Math_pow_2 (zoom (zoomSet delta v) - 1)
   \<and> (\<exists>z. zoom (zoomSet delta v) = Number z \<and> 1 \<le> z \<and> z \<le> 10
          \<and> divider (zoomSet delta v) = Number (2 powr (z - 1)))
   \<and> (zoom v + delta < 1 \<longrightarrow> zoom (zoomSet delta v) = 1 \<and> divider (zoomSet delta v) = 1)
   \<and> (10 < zoom v + delta \<longrightarrow> zoom (zoomSet delta v) = 10 \<and> divider (zoomSet delta v) = 512)
   \<and> (1 \<le> zoom v + delta \<and> zoom v + delta \<le> 10 \<longrightarrow> zoom (zoomSet delta v) = zoom v + delta)
   \<and> (zoom v = 1 \<longrightarrow> zoom (zoomSet 1 v) = 2 \<and> divider (zoomSet 1 v) = 2)
   \<and> (zoom v = 2 \<longrightarrow> zoom (zoomSet 20 v) = 10 \<and> divider (zoomSet 20 v) = 512)"
proof -
  obtain z d where "zoom v = Number z" "delta = Number d"
    using assms by (auto simp add: not_NaN)
  then show ?thesis
    by (simp add: zoomSet_def Let_def)
qed

theorem zoomSet_clamped_witness:
  "zoom (zoomSet 1 (Viewer [] 800 600 400)) = 2
   \<and> divider (zoomSet 1 (Viewer [] 800 600 400)) = 2
   \<and> zoom (zoomSet 20 (zoomSet 1 (Viewer [] 800 600 400))) = 10
   \<and> divider (zoomSet 20 (zoomSet 1 (Viewer [] 800 600 400))) = 512
   \<and> zoom (zoomSet (- 7) (Viewer [] 800 600 400)) = 1
   \<and> divider (zoomSet (- 7) (Viewer [] 800 600 400)) = 1
   \<and> zoom (zoomSet (5 / 2) (Viewer [] 800 600 400)) = 7 / 2
   \<and> zoom (zoomSet 10 (Viewer [] 800 600 400)) = 10
   \<and> divider (zoomSet 10 (Viewer [] 800 600 400)) = 512"
proof -
  let ?v = "Viewer [] 800 600 400"
  have z1: "zoom ?v = 1" by (simp add: Viewer_def)
  then have n: "zoom ?v \<noteq> NaN" by simp
  have s1: "zoom (zoomSet 1 ?v) = 2 \<and> divider (zoomSet 1 ?v) = 2"
    using zoomSet_clamped [OF n, of 1] z1 by simp
  then have n1: "zoom (zoomSet 1 ?v) \<noteq> NaN" by simp
  have s2: "zoom (zoomSet 20 (zoomSet 1 ?v)) = 10 \<and> divider (zoomSet 20 (zoomSet 1 ?v)) = 512"
    using zoomSet_clamped [OF n1, of 20] s1 by simp
  have s3: "zoom (zoomSet (- 7) ?v) = 1 \<and> divider (zoomSet (- 7) ?v) = 1"
    using zoomSet_clamped [OF n, of "- 7"] z1 by simp
  have s4: "zoom (zoomSet (5 / 2) ?v) = 7 / 2"
    using zoomSet_clamped [OF n, of "5 / 2"] z1 by simp
  have s5: "zoom (zoomSet 10 ?v) = 10 \<and> divider (zoomSet 10 ?v) = 512"
    using zoomSet_clamped [OF n, of 10] z1 by simp
  show ?thesis using s1 s2 s3 s4 s5 by simp
qed

text \<open>
  C1 as it is stated, for every delta, fails at NaN. A wheel event with neither
  \<open>detail\<close> nor \<open>wheelDelta\<close> makes \<open>wheelHandler\<close> call the zoom callback with NaN;
  \<open>zoomSet NaN\<close> leaves the zoom level and the divider NaN, outside [1, 10], and from
  that reachable state every later \<open>zoomSet\<close> leaves them NaN.
\<close>

theorem zoomSet_clamped_counterexample:
  "zoom (zoomSet NaN (Viewer [] 800 600 400)) = NaN
   \<and> divider (zoomSet NaN (Viewer [] 800 600 400)) = NaN
   \<and> \<not> (1 \<le> zoom (zoomSet NaN (Viewer [] 800 600 400))
          \<and> zoom (zoomSet NaN (Viewer [] 800 600 400)) \<le> 10)
   \<and> wheelHandler None \<lparr>detail = None, wheelDelta = None\<rparr> = [zoomCallback NaN]
   \<and> fold perform (wheelHandler None \<lparr>detail = None, wheelDelta = None\<rparr>)
         (Viewer [] 800 600 400)
       = zoomSet NaN (Viewer [] 800 600 400)
   \<and> reachable (zoomSet NaN (Viewer [] 800 600 400))
   \<and> zoom (zoomSet 1 (zoomSet NaN (Viewer [] 800 600 400))) = NaN
   \<and> divider (zoomSet 1 (zoomSet NaN (Viewer [] 800 600 400))) = NaN"
proof -
  let ?v = "Viewer [] 800 600 400"
  have w: "wheelHandler None \<lparr>detail = None, wheelDelta = None\<rparr> = [zoomCallback NaN]"
    by (simp add: wheelHandler_def normalizeWheelDelta_def equalizeEvent_def normalizeDelta_def
        truthyValue_def truthy_def)
  have r: "reachable (zoomSet NaN ?v)"
    by (rule reachable.zoom, rule reachable.init) simp
  have l: "zoom (zoomSet 1 (zoomSet NaN ?v)) = NaN \<and> divider (zoomSet 1 (zoomSet NaN ?v)) = NaN"
    by (rule zoomSet_from_NaN) (rule zoomSet_NaN)
  show ?thesis
    using w r l by (simp add: zoomSet_NaN)
qed

text \<open>
  C2. \<open>panningSet deltaX deltaY\<close> adds \<open>deltaX * containerRatio / divider\<close> to \<open>centerX\<close>
  and \<open>deltaY * containerRatio / divider\<close> to \<open>centerY\<close>. With a positive ratio and
  divider (as in every state built on a positive width and frame width, while the zoom
  level is a number) a positive delta moves a center that is a number forward and a
  negative one backward. The sum is stored as it is, with no bound: some delta takes the
  center past the document's width. The rectangle is then published exactly once: the
  element receives one more \<open>viewBox\<close>, computed from the new center.
\<close>

theorem panningSet_adds:
  "centerX (panningSet deltaX deltaY v) = centerX v + deltaX * containerRatio v / divider v
   \<and> centerY (panningSet deltaX deltaY v) = centerY v + deltaY * containerRatio v / divider v
   \<and> (0 < containerRatio v \<and> 0 < divider v \<longrightarrow>
        (0 < deltaX \<and> centerX v \<noteq> NaN \<longrightarrow> centerX v < centerX (panningSet deltaX deltaY v)) \<and>
        (deltaX < 0 \<and> centerX v \<noteq> NaN \<longrightarrow> centerX (panningSet deltaX deltaY v) < centerX v) \<and>
        (0 < deltaY \<and> centerY v \<noteq> NaN \<longrightarrow> centerY v < centerY (panningSet deltaX deltaY v)) \<and>
        (deltaY < 0 \<and> centerY v \<noteq> NaN \<longrightarrow> centerY (panningSet deltaX deltaY v) < centerY v))
   \<and> (0 < containerRatio v \<and> 0 < divider v \<and> centerX v \<noteq> NaN \<and> maxWidth v \<noteq> NaN \<longrightarrow>
        (\<exists>dx. maxWidth v < centerX (panningSet dx deltaY v)))
   \<and> doc (panningSet deltaX deltaY v) =
        doc v @ [(centerX (panningSet deltaX deltaY v) - maxWidth v / divider v / 2,
                  centerY (panningSet deltaX deltaY v) - maxHeight v / divider v / 2,
                  maxWidth v / divider v, maxHeight v / divider v)]
   \<and> length (doc (panningSet deltaX deltaY v)) = length (doc v) + 1"
proof -
  have cx: "centerX (panningSet dx dy v) = centerX v + dx * containerRatio v / divider v"
    for dx dy
    by (simp add: panningSet_def)
  have cy: "centerY (panningSet dx dy v) = centerY v + dy * containerRatio v / divider v"
    for dx dy
    by (simp add: panningSet_def)
  have up: "c < c + d * containerRatio v / divider v"
    if "0 < containerRatio v" "0 < divider v" "0 < d" "c \<noteq> NaN" for c d
    using that by (cases "containerRatio v"; cases "divider v"; cases d; cases c) simp_all
  have down: "c + d * containerRatio v / divider v < c"
    if "0 < containerRatio v" "0 < divider v" "d < 0" "c \<noteq> NaN" for c d
    using that
    by (cases "containerRatio v"; cases "divider v"; cases d; cases c)
      (simp_all add: divide_neg_pos mult_neg_pos)
  have beyond: "\<exists>dx. maxWidth v < centerX (panningSet dx deltaY v)"
    if p: "0 < containerRatio v" "0 < divider v" "centerX v \<noteq> NaN" "maxWidth v \<noteq> NaN"
  proof -
    obtain x w where xw: "centerX v = Number x" "maxWidth v = Number w"
      using p(3,4) by (auto simp add: not_NaN)
    have "containerRatio v \<noteq> NaN" "divider v \<noteq> NaN"
      using p(1,2) by auto
    then obtain r q where rq: "containerRatio v = Number r" "divider v = Number q"
      by (auto simp add: not_NaN)
    note n = rq xw
    have pos: "0 < r" "0 < q" using p(1,2) rq by simp_all
    let ?dx = "(w - x + 1) * q / r"
    have "?dx * r / q = w - x + 1"
      using pos by simp
    then have "maxWidth v < centerX (panningSet (Number ?dx) deltaY v)"
      unfolding cx using n by simp
    then show ?thesis ..
  qed
  have pub: "doc (panningSet deltaX deltaY v) =
        doc v @ [(centerX (panningSet deltaX deltaY v) - maxWidth v / divider v / 2,
                  centerY (panningSet deltaX deltaY v) - maxHeight v / divider v / 2,
                  maxWidth v / divider v, maxHeight v / divider v)]"
    by (simp add: panningSet_def redraw_doc)
  have len: "length (doc (panningSet deltaX deltaY v)) = length (doc v) + 1"
    unfolding pub by simp
  show ?thesis
    using cx [of deltaX deltaY] cy [of deltaX deltaY] up down beyond pub len
    by simp
qed

theorem panningSet_adds_witness:
  "centerX (panningSet 10 (- 20) (zoomSet 1 (Viewer [] 800 600 400))) = 410
   \<and> centerY (panningSet 10 (- 20) (zoomSet 1 (Viewer [] 800 600 400))) = 280
   \<and> doc (panningSet 10 (- 20) (zoomSet 1 (Viewer [] 800 600 400))) =
       [(200, 150, 400, 300), (210, 130, 400, 300)]
   \<and> centerX (panningSet 1000 0 (Viewer [] 800 600 400)) = 2400
   \<and> maxWidth (panningSet 1000 0 (Viewer [] 800 600 400)) = 800
   \<and> centerX (zoomSet 1 (Viewer [] 800 600 400))
       < centerX (panningSet 10 (- 20) (zoomSet 1 (Viewer [] 800 600 400)))
   \<and> centerY (panningSet 10 (- 20) (zoomSet 1 (Viewer [] 800 600 400)))
       < centerY (zoomSet 1 (Viewer [] 800 600 400))"
proof -
  let ?init = "Viewer [] 800 600 400"
  let ?v = "zoomSet 1 ?init"
  have f: "centerX ?v = 400" "centerY ?v = 300" "containerRatio ?v = 2" "divider ?v = 2"
    "maxWidth ?v = 800" "maxHeight ?v = 600" "doc ?v = [(200, 150, 400, 300)]"
    by (simp_all add: zoomSet_def Viewer_def redraw_doc Let_def)
  have g: "centerX ?init = 400" "containerRatio ?init = 2" "divider ?init = 1"
    "maxWidth ?init = 800"
    by (simp_all add: Viewer_def)
  have a: "centerX (panningSet 10 (- 20) ?v) = 410 \<and> centerY (panningSet 10 (- 20) ?v) = 280
     \<and> doc (panningSet 10 (- 20) ?v) = [(200, 150, 400, 300), (210, 130, 400, 300)]
     \<and> centerX ?v < centerX (panningSet 10 (- 20) ?v)
     \<and> centerY (panningSet 10 (- 20) ?v) < centerY ?v"
    using panningSet_adds [of 10 "- 20" ?v] f by simp
  have b: "centerX (panningSet 1000 0 ?init) = 2400"
    using panningSet_adds [of 1000 0 ?init] g by simp
  have c: "maxWidth (panningSet 1000 0 ?init) = 800"
    using g by (simp add: panningSet_def)
  show ?thesis using a b c by blast
qed



text \<open>
  C9. Frame conditions. \<open>zoomSet\<close> leaves \<open>centerX\<close>, \<open>centerY\<close>, \<open>maxWidth\<close>,
  \<open>maxHeight\<close> and \<open>containerRatio\<close> as they were; \<open>panningSet\<close> leaves \<open>zoom\<close>,
  \<open>divider\<close>, \<open>maxWidth\<close>, \<open>maxHeight\<close> and \<open>containerRatio\<close> as they were. Of the
  Viewer's fields \<open>zoomSet\<close> writes \<open>zoom\<close> and \<open>divider\<close> only, \<open>panningSet\<close>
  \<open>centerX\<close> and \<open>centerY\<close> only; the element \<open>doc\<close> receives the new rectangle.
\<close>

theorem viewer_frame:
  "centerX (zoomSet delta v) = centerX v
   \<and> centerY (zoomSet delta v) = centerY v
   \<and> maxWidth (zoomSet delta v) = maxWidth v
   \<and> maxHeight (zoomSet delta v) = maxHeight v
   \<and> containerRatio (zoomSet delta v) = containerRatio v
   \<and> zoom (panningSet deltaX deltaY v) = zoom v
   \<and> divider (panningSet deltaX deltaY v) = divider v
   \<and> maxWidth (panningSet deltaX deltaY v) = maxWidth v
   \<and> maxHeight (panningSet deltaX deltaY v) = maxHeight v
   \<and> containerRatio (panningSet deltaX deltaY v) = containerRatio v
   \<and> zoomSet delta v =
       v\<lparr>zoom := zoom (zoomSet delta v), divider := divider (zoomSet delta v),
         doc := doc (zoomSet delta v)\<rparr>
   \<and> panningSet deltaX deltaY v =
       v\<lparr>centerX := centerX (panningSet deltaX deltaY v),
         centerY := centerY (panningSet deltaX deltaY v),
         doc := doc (panningSet deltaX deltaY v)\<rparr>"
  by (simp add: zoomSet_def panningSet_def redraw_def Let_def)

section \<open>Properties of the wheel normalizer\<close>

lemma boundDelta_range: "- 1 \<le> boundDelta x \<and> boundDelta x \<le> 1"
  by (simp add: boundDelta_def)

lemma normalizeDelta_present:
  "detail ev = Some d \<Longrightarrow> wheelDelta ev = Some w \<Longrightarrow>
   normalizeDelta ev =
     Some (if d = 0 then w / 120 else if w = 0 then - d / 1.35 else d / (w / d))"
  by (simp add: normalizeDelta_def truthyValue_def truthy_def Let_def)

text \<open>
  Without \<open>wheelDelta\<close>, and with \<open>detail\<close> missing or zero, the result is NaN.
\<close>

lemma normalizeWheelDelta_missing:
  "wheelDelta (equalizeEvent window_event event) = None \<Longrightarrow>
   \<not> truthy (detail (equalizeEvent window_event event)) \<Longrightarrow>
   normalizeWheelDelta window_event event = None"
  by (simp add: normalizeWheelDelta_def normalizeDelta_def truthyValue_def)

text \<open>
  C3. When the wheel event that is read carries both \<open>detail\<close> and \<open>wheelDelta\<close>, the
  normalizer returns a number, and this number lies in [-1, 1]: it is the intermediate
  delta (after the quadratic step) divided by 2 and clamped to [-1, 1].
\<close>

theorem normalizeWheelDelta_bounded:
  assumes "detail (equalizeEvent window_event event) = Some d"
    and "wheelDelta (equalizeEvent window_event event) = Some w"
  shows "\<exists>delta r. normalizeDelta (equalizeEvent window_event event) = Some delta
           \<and> normalizeWheelDelta window_event event = Some r
           \<and> r = min (max (quadraticScale delta / 2) (- 1)) 1
           \<and> - 1 \<le> r \<and> r \<le> 1"
proof -
  obtain delta where delta: "normalizeDelta (equalizeEvent window_event event) = Some delta"
    using normalizeDelta_present [OF assms] by blast
  let ?r = "boundDelta (quadraticScale delta)"
  have "normalizeWheelDelta window_event event = Some ?r"
    by (simp add: normalizeWheelDelta_def delta)
  moreover have "?r = min (max (quadraticScale delta / 2) (- 1)) 1"
    by (simp add: boundDelta_def)
  moreover have "- 1 \<le> ?r \<and> ?r \<le> 1"
    by (rule boundDelta_range)
  ultimately show ?thesis using delta by blast
qed

theorem normalizeWheelDelta_bounded_witness:
  "(\<exists>delta r. normalizeDelta (equalizeEvent None \<lparr>detail = Some 0, wheelDelta = Some 12000\<rparr>)
                 = Some delta
             \<and> normalizeWheelDelta None \<lparr>detail = Some 0, wheelDelta = Some 12000\<rparr> = Some r
             \<and> r = min (max (quadraticScale delta / 2) (- 1)) 1
             \<and> - 1 \<le> r \<and> r \<le> 1)
   \<and> normalizeWheelDelta None \<lparr>detail = Some 0, wheelDelta = Some 12000\<rparr> = Some 1
   \<and> normalizeWheelDelta None \<lparr>detail = Some 3, wheelDelta = Some (- 120)\<rparr> = Some (- 3 / 80)
   \<and> normalizeWheelDelta (Some \<lparr>detail = Some 0, wheelDelta = Some 120\<rparr>)
        \<lparr>detail = None, wheelDelta = None\<rparr> = Some (1 / 2)"
proof -
  let ?e = "\<lparr>detail = Some (0::real), wheelDelta = Some (12000::real)\<rparr>"
  have d: "detail (equalizeEvent None ?e) = Some 0"
    and w: "wheelDelta (equalizeEvent None ?e) = Some 12000"
    by (simp_all add: equalizeEvent_def)
  have a: "normalizeWheelDelta None ?e = Some 1"
    by (simp add: normalizeWheelDelta_def equalizeEvent_def normalizeDelta_def truthyValue_def
        truthy_def quadraticScale_def boundDelta_def Let_def)
  have b: "normalizeWheelDelta None \<lparr>detail = Some 3, wheelDelta = Some (- 120)\<rparr>
             = Some (- 3 / 80)"
    by (simp add: normalizeWheelDelta_def equalizeEvent_def normalizeDelta_def truthyValue_def
        truthy_def quadraticScale_def boundDelta_def Let_def)
  have c: "normalizeWheelDelta (Some \<lparr>detail = Some 0, wheelDelta = Some 120\<rparr>)
             \<lparr>detail = None, wheelDelta = None\<rparr> = Some (1 / 2)"
    by (simp add: normalizeWheelDelta_def equalizeEvent_def normalizeDelta_def truthyValue_def
        truthy_def quadraticScale_def boundDelta_def Let_def)
  show ?thesis
    using normalizeWheelDelta_bounded [OF d w] a b c by blast
qed

text \<open>
  C8. The quadratic step leaves every delta of [-1, 1] as it is, maps a delta above 1 to
  \<open>(delta ^ 2 + 224) / 225\<close> and a delta below -1 to \<open>(- (delta ^ 2) - 224) / 225\<close>.
  At delta = 1 the source takes the formula for the deltas above 1, whose value there is
  1: the step is the identity at the boundary too.
\<close>

theorem quadraticScale_cases:
  "(- 1 \<le> delta \<and> delta \<le> 1 \<longrightarrow> quadraticScale delta = delta)
   \<and> (1 < delta \<longrightarrow> quadraticScale delta = (delta ^ 2 + 224) / 225)
   \<and> (delta < - 1 \<longrightarrow> quadraticScale delta = (- (delta ^ 2) - 224) / 225)
   \<and> quadraticScale 1 = 1
   \<and> quadraticScale (- 1) = - 1"
proof -
  have one: "quadraticScale 1 = 1"
    by (simp add: quadraticScale_def Let_def)
  have mid: "quadraticScale delta = delta" if "- 1 \<le> delta" "delta \<le> 1"
  proof (cases "delta = 1")
    case True
    then show ?thesis using one by simp
  next
    case False
    then have "delta < 1" using that by simp
    then show ?thesis using that by (simp add: quadraticScale_def Let_def)
  qed
  have up: "quadraticScale delta = (delta ^ 2 + 224) / 225" if "1 < delta"
    using that by (simp add: quadraticScale_def Let_def)
  have down: "quadraticScale delta = (- (delta ^ 2) - 224) / 225" if "delta < - 1"
    using that by (simp add: quadraticScale_def Let_def)
  have mone: "quadraticScale (- 1) = - 1"
    by (simp add: quadraticScale_def Let_def)
  show ?thesis using one mid up down mone by blast
qed

theorem quadraticScale_cases_witness:
  "quadraticScale (1 / 2) = 1 / 2
   \<and> quadraticScale 16 = 32 / 15
   \<and> quadraticScale (- 16) = - (32 / 15)
   \<and> quadraticScale 1 = 1"
proof -
  have a: "quadraticScale (1 / 2) = 1 / 2"
    using quadraticScale_cases [of "1 / 2"] by simp
  have b: "quadraticScale 16 = 32 / 15"
    using quadraticScale_cases [of 16] by simp
  have c: "quadraticScale (- 16) = - (32 / 15)"
    using quadraticScale_cases [of "- 16"] by simp
  have d: "quadraticScale 1 = 1"
    using quadraticScale_cases [of 1] by simp
  show ?thesis using a b c d by simp
qed

section \<open>Properties of the handlers\<close>

text \<open>
  Under \<open>SVGPAZ.init\<close> the calls of a handler reach the Viewer: a move while dragging
  is one \<open>panningSet\<close>, hence one new rectangle.
\<close>

lemma drag_pans_viewer:
  "dragging h \<Longrightarrow>
   fold perform (snd (mouseMoveHandler e h)) v =
     panningSet (Number (originX h - clientX e)) (Number (originY h - clientY e)) v"
  by (simp add: mouseMoveHandler_def)

text \<open>
  C5. A move while dragging calls \<open>preventDefault\<close> and then the pan callback, once,
  with the stored origin minus the pointer's position, and stores the pointer's position
  as the new origin. A move while not dragging calls nothing and changes nothing. A press
  at (100, 100) followed by a move to (90, 95) gives one pan callback, with (10, 5).
\<close>

theorem mouseMoveHandler_pans:
  "(dragging h \<longrightarrow>
      mouseMoveHandler e h =
        (h\<lparr>originX := clientX e, originY := clientY e\<rparr>,
         [preventDefault, panCallback (originX h - clientX e) (originY h - clientY e)])
      \<and> panCalls (snd (mouseMoveHandler e h)) = [(originX h - clientX e, originY h - clientY e)]
      \<and> zoomCalls (snd (mouseMoveHandler e h)) = []
      \<and> originX (fst (mouseMoveHandler e h)) = clientX e
      \<and> originY (fst (mouseMoveHandler e h)) = clientY e
      \<and> dragging (fst (mouseMoveHandler e h)))
   \<and> (\<not> dragging h \<longrightarrow> mouseMoveHandler e h = (h, []))
   \<and> snd (mouseMoveHandler \<lparr>clientX = 90, clientY = 95\<rparr>
             (fst (mouseDownHandler \<lparr>clientX = 100, clientY = 100\<rparr> h)))
       = [preventDefault, panCallback 10 5]"
  by (simp add: mouseMoveHandler_def mouseDownHandler_def)

theorem mouseMoveHandler_pans_witness:
  "panCalls (snd (mouseMoveHandler \<lparr>clientX = 90, clientY = 95\<rparr>
               \<lparr>dragging = True, originX = 100, originY = 100\<rparr>)) = [(10, 5)]
   \<and> fst (mouseMoveHandler \<lparr>clientX = 90, clientY = 95\<rparr>
            \<lparr>dragging = True, originX = 100, originY = 100\<rparr>)
       = \<lparr>dragging = True, originX = 90, originY = 95\<rparr>
   \<and> mouseMoveHandler \<lparr>clientX = 90, clientY = 95\<rparr> MouseHandler = (MouseHandler, [])"
proof -
  let ?e = "\<lparr>clientX = 90, clientY = 95\<rparr>"
  let ?h = "\<lparr>dragging = True, originX = 100, originY = 100\<rparr>"
  have a: "panCalls (snd (mouseMoveHandler ?e ?h)) = [(10, 5)]"
    "fst (mouseMoveHandler ?e ?h) = \<lparr>dragging = True, originX = 90, originY = 95\<rparr>"
    using mouseMoveHandler_pans [of ?h ?e] by simp_all
  have b: "mouseMoveHandler ?e MouseHandler = (MouseHandler, [])"
    using mouseMoveHandler_pans [of MouseHandler ?e] by (simp add: MouseHandler_def)
  show ?thesis using a b by simp
qed

text \<open>
  C10. The keyboard handler never calls \<open>preventDefault\<close>, whatever the key: it calls
  one callback for each of the six mapped key codes and nothing for any other.
\<close>

theorem keydownHandler_not_consumed:
  "\<not> consumed (keydownHandler e)
   \<and> keydownHandler \<lparr>which = Some 107, keyCode = None\<rparr> = [zoomCallback 1]
   \<and> keydownHandler \<lparr>which = Some 109, keyCode = None\<rparr> = [zoomCallback (- 1)]
   \<and> keydownHandler \<lparr>which = Some 39, keyCode = None\<rparr> = [panCallback 10 0]
   \<and> keydownHandler \<lparr>which = Some 37, keyCode = None\<rparr> = [panCallback (- 10) 0]
   \<and> keydownHandler \<lparr>which = None, keyCode = Some 38\<rparr> = [panCallback 0 (- 10)]
   \<and> keydownHandler \<lparr>which = Some 0, keyCode = Some 40\<rparr> = [panCallback 0 10]
   \<and> keydownHandler \<lparr>which = Some 65, keyCode = Some 65\<rparr> = []"
  by (simp add: keydownHandler_def consumed_def truthy_def Let_def)

theorem keydownHandler_not_consumed_witness:
  "\<not> consumed (keydownHandler \<lparr>which = Some 107, keyCode = Some 107\<rparr>)
   \<and> \<not> consumed (keydownHandler \<lparr>which = Some 13, keyCode = Some 13\<rparr>)"
  using keydownHandler_not_consumed [of "\<lparr>which = Some 107, keyCode = Some 107\<rparr>"]
    keydownHandler_not_consumed [of "\<lparr>which = Some 13, keyCode = Some 13\<rparr>"]
  by blast


section \<open>Properties of the touch handler\<close>

lemma element_assign_same: "element (assign xs i v) i = v"
  by (simp add: element_def assign_def nth_append)

lemma element_assign_other: "j \<noteq> i \<Longrightarrow> element (assign xs i v) j = element xs j"
  by (auto simp add: element_def assign_def nth_append nth_Cons')

lemma touchMoves_idle:
  "mode h = 0 \<Longrightarrow> touchMoves es h = (h, [], replicate (length es) None)"
  by (induction es) (simp_all add: touchMoveHandler_def)

text \<open>What \<open>touchStartHandler\<close> returns, by the number of contacts.\<close>

lemma touchStartHandler_other:
  "length (touches e) \<noteq> 1 \<Longrightarrow> length (touches e) \<noteq> 2 \<Longrightarrow>
   touchStartHandler e h = (h\<lparr>mode := 0\<rparr>, [], None)"
  by (simp add: touchStartHandler_def Let_def)

lemma touchStartHandler_one:
  "touches e = [t0] \<Longrightarrow>
   touchStartHandler e h = (h\<lparr>mode := 1, fingers := assign (fingers h) 0 (Some t0)\<rparr>, [], None)"
  by (simp add: touchStartHandler_def Let_def item_def)

lemma touchStartHandler_two:
  "touches e = [t0, t1] \<Longrightarrow>
   touchStartHandler e h =
     (h\<lparr>mode := 2, fingers := assign (assign (fingers h) 0 (Some t0)) 1 (Some t1)\<rparr>, [], None)"
  by (simp add: touchStartHandler_def Let_def item_def)

text \<open>Every handler keeps the tracker's invariant.\<close>

lemma touchStartHandler_keeps: "fingers_kept (fst (touchStartHandler e h))"
proof -
  consider (one) t0 where "touches e = [t0]"
    | (two) t0 t1 where "touches e = [t0, t1]"
    | (other) "length (touches e) \<noteq> 1" "length (touches e) \<noteq> 2"
  proof (cases "touches e")
    case Nil
    then show ?thesis using that(3) by simp
  next
    case (Cons a as)
    note outer = Cons
    show ?thesis
    proof (cases as)
      case Nil
      then show ?thesis using that(1) outer by simp
    next
      case (Cons b bs)
      then show ?thesis using that(2) that(3) outer by (cases bs) simp_all
    qed
  qed
  then show ?thesis
  proof cases
    case one
    then show ?thesis
      by (simp add: touchStartHandler_one fingers_kept_def element_assign_same)
  next
    case two
    then show ?thesis
      by (simp add: touchStartHandler_two fingers_kept_def element_assign_same
          element_assign_other)
  next
    case other
    then show ?thesis
      by (simp add: touchStartHandler_other fingers_kept_def)
  qed
qed

lemma touchMoveHandler_keeps:
  assumes "fingers_kept h"
  shows "fingers_kept (fst (touchMoveHandler e h))"
proof -
  have "mode h \<le> 2" using assms by (simp add: fingers_kept_def)
  then consider "mode h = 0" | "mode h = 1" | "mode h = 2"
    by linarith
  then show ?thesis
  proof cases
    case 1
    then show ?thesis using assms by (simp add: touchMoveHandler_def)
  next
    case 2
    then show ?thesis
      using assms
      by (auto simp add: touchMoveHandler_def fingers_kept_def element_assign_same
          split: option.splits)
  next
    case 3
    then show ?thesis
      using assms
      by (auto simp add: touchMoveHandler_def fingers_kept_def Let_def element_assign_same
          element_assign_other split: option.splits)
  qed
qed

lemma tracked_fingers_kept: "tracked h \<Longrightarrow> fingers_kept h"
proof (induction rule: tracked.induct)
  case new
  show ?case by (simp add: fingers_kept_def TouchHandler_def)
next
  case (touchstart h e)
  show ?case by (rule touchStartHandler_keeps)
next
  case (touchmove h e)
  from touchmove.IH show ?case by (rule touchMoveHandler_keeps)
next
  case (touchend h e)
  show ?case unfolding touchEndHandler_def by (rule touchStartHandler_keeps)
qed

text \<open>
  With fewer than two touch points in the event, or an empty finger slot, the handler in
  mode 2 throws before it reaches the zoom callback.
\<close>

lemma touchMoveHandler_zooming_throws:
  "mode h = 2 \<Longrightarrow> item (touches e) 1 = None \<Longrightarrow>
   touchMoveHandler e h = (h, [preventDefault], Some TypeError)"
  by (simp add: touchMoveHandler_def split: option.splits)

text \<open>
  C6, as the code has it. A tracker in mode 2 that receives a touch-move with at least
  two touch points calls \<open>preventDefault\<close> and then the zoom callback, once, with the
  distance between the event's first two touch points minus the distance between the two
  finger slots, divided by 100; both slots then hold the event's touch points. From
  distance 50 to distance 150 the delta is 1.
\<close>

theorem touchMoveHandler_zooms:
  assumes "tracked h" and "mode h = 2"
    and "item (touches e) 0 = Some t0" and "item (touches e) 1 = Some t1"
  shows "\<exists>f0 f1 previousDistance currentDistance.
           element (fingers h) 0 = Some f0 \<and> element (fingers h) 1 = Some f1
           \<and> previousDistance = sqrt ((pageX f0 - pageX f1) ^ 2 + (pageY f0 - pageY f1) ^ 2)
           \<and> currentDistance = sqrt ((pageX t0 - pageX t1) ^ 2 + (pageY t0 - pageY t1) ^ 2)
           \<and> touchMoveHandler e h =
               (h\<lparr>fingers := assign (assign (fingers h) 0 (Some t0)) 1 (Some t1)\<rparr>,
                [preventDefault,
                 zoomCallback (Number ((currentDistance - previousDistance) / 100))],
                None)
           \<and> zoomCalls (fst (snd (touchMoveHandler e h)))
               = [Number ((currentDistance - previousDistance) / 100)]
           \<and> panCalls (fst (snd (touchMoveHandler e h))) = []
           \<and> element (fingers (fst (touchMoveHandler e h))) 0 = Some t0
           \<and> element (fingers (fst (touchMoveHandler e h))) 1 = Some t1
           \<and> mode (fst (touchMoveHandler e h)) = 2
           \<and> (previousDistance = 50 \<and> currentDistance = 150 \<longrightarrow>
                zoomCalls (fst (snd (touchMoveHandler e h))) = [Number 1])"
proof -
  have "fingers_kept h" using assms(1) by (rule tracked_fingers_kept)
  then obtain f0 f1 where f: "element (fingers h) 0 = Some f0" "element (fingers h) 1 = Some f1"
    using assms(2) by (auto simp add: fingers_kept_def)
  define previousDistance
    where "previousDistance = sqrt ((pageX f0 - pageX f1) ^ 2 + (pageY f0 - pageY f1) ^ 2)"
  define currentDistance
    where "currentDistance = sqrt ((pageX t0 - pageX t1) ^ 2 + (pageY t0 - pageY t1) ^ 2)"
  have run: "touchMoveHandler e h =
           (h\<lparr>fingers := assign (assign (fingers h) 0 (Some t0)) 1 (Some t1)\<rparr>,
            [preventDefault,
             zoomCallback (Number ((currentDistance - previousDistance) / 100))],
            None)"
    using assms(2-4) f
    by (simp add: touchMoveHandler_def Let_def previousDistance_def currentDistance_def)
  have rest: "zoomCalls (fst (snd (touchMoveHandler e h)))
               = [Number ((currentDistance - previousDistance) / 100)]
           \<and> panCalls (fst (snd (touchMoveHandler e h))) = []
           \<and> element (fingers (fst (touchMoveHandler e h))) 0 = Some t0
           \<and> element (fingers (fst (touchMoveHandler e h))) 1 = Some t1
           \<and> mode (fst (touchMoveHandler e h)) = 2
           \<and> (previousDistance = 50 \<and> currentDistance = 150 \<longrightarrow>
                zoomCalls (fst (snd (touchMoveHandler e h))) = [Number 1])"
    unfolding run using assms(2)
    by (simp add: element_assign_same element_assign_other)
  show ?thesis
    using f previousDistance_def currentDistance_def run rest by blast
qed

lemma sqrt_2500: "sqrt 2500 = 50"
  by (rule real_sqrt_unique) simp_all

lemma sqrt_22500: "sqrt 22500 = 150"
  by (rule real_sqrt_unique) simp_all

theorem touchMoveHandler_zooms_witness:
  "touchMoveHandler \<lparr>touches = [\<lparr>pageX = 0, pageY = 0\<rparr>, \<lparr>pageX = 90, pageY = 120\<rparr>]\<rparr>
     (fst (touchStartHandler \<lparr>touches = [\<lparr>pageX = 0, pageY = 0\<rparr>, \<lparr>pageX = 30, pageY = 40\<rparr>]\<rparr>
             TouchHandler))
   = (\<lparr>mode = 2, fingers = [Some \<lparr>pageX = 0, pageY = 0\<rparr>, Some \<lparr>pageX = 90, pageY = 120\<rparr>]\<rparr>,
      [preventDefault, zoomCallback (Number 1)], None)"
proof -
  let ?f0 = "\<lparr>pageX = 0, pageY = 0\<rparr>"
  let ?f1 = "\<lparr>pageX = 30, pageY = 40\<rparr>"
  let ?t1 = "\<lparr>pageX = 90, pageY = 120\<rparr>"
  let ?h = "fst (touchStartHandler \<lparr>touches = [?f0, ?f1]\<rparr> TouchHandler)"
  let ?e = "\<lparr>touches = [?f0, ?t1]\<rparr>"
  have h: "?h = \<lparr>mode = 2, fingers = [Some ?f0, Some ?f1]\<rparr>"
    by (simp add: touchStartHandler_two TouchHandler_def assign_def)
  have t: "tracked ?h" by (rule tracked.touchstart) (rule tracked.new)
  have m: "mode ?h = 2" by (simp add: h)
  have i0: "item (touches ?e) 0 = Some ?f0" by (simp add: item_def)
  have i1: "item (touches ?e) 1 = Some ?t1" by (simp add: item_def)
  have e: "element (fingers ?h) 0 = Some ?f0" "element (fingers ?h) 1 = Some ?f1"
    by (simp_all add: h element_def)
  show ?thesis
    using touchMoveHandler_zooms [OF t m i0 i1] unfolding e
    by (auto simp add: h assign_def sqrt_2500 sqrt_22500)
qed

text \<open>
  C6 as it is stated, for every touch-move in mode 2, fails when the event has fewer than
  two touch points. After a touch-start with two contacts the tracker is in mode 2; a
  touch-move that carries one touch point then throws a \<open>TypeError\<close> on
  \<open>event.touches[1].pageX\<close>, after \<open>preventDefault\<close> and before the zoom callback, which
  is not called; the tracker is left as it was.
\<close>

theorem touchMoveHandler_zooms_counterexample:
  "tracked (fst (touchStartHandler
                   \<lparr>touches = [\<lparr>pageX = 0, pageY = 0\<rparr>, \<lparr>pageX = 30, pageY = 40\<rparr>]\<rparr>
                   TouchHandler))
   \<and> mode (fst (touchStartHandler
                   \<lparr>touches = [\<lparr>pageX = 0, pageY = 0\<rparr>, \<lparr>pageX = 30, pageY = 40\<rparr>]\<rparr>
                   TouchHandler)) = 2
   \<and> touchMoveHandler \<lparr>touches = [\<lparr>pageX = 90, pageY = 120\<rparr>]\<rparr>
       (fst (touchStartHandler
               \<lparr>touches = [\<lparr>pageX = 0, pageY = 0\<rparr>, \<lparr>pageX = 30, pageY = 40\<rparr>]\<rparr>
               TouchHandler))
     = (\<lparr>mode = 2, fingers = [Some \<lparr>pageX = 0, pageY = 0\<rparr>, Some \<lparr>pageX = 30, pageY = 40\<rparr>]\<rparr>,
        [preventDefault], Some TypeError)
   \<and> zoomCalls (fst (snd (touchMoveHandler \<lparr>touches = [\<lparr>pageX = 90, pageY = 120\<rparr>]\<rparr>
       (fst (touchStartHandler
               \<lparr>touches = [\<lparr>pageX = 0, pageY = 0\<rparr>, \<lparr>pageX = 30, pageY = 40\<rparr>]\<rparr>
               TouchHandler))))) = []"
proof -
  let ?h = "fst (touchStartHandler
                   \<lparr>touches = [\<lparr>pageX = 0, pageY = 0\<rparr>, \<lparr>pageX = 30, pageY = 40\<rparr>]\<rparr>
                   TouchHandler)"
  have h: "?h = \<lparr>mode = 2, fingers = [Some \<lparr>pageX = 0, pageY = 0\<rparr>, Some \<lparr>pageX = 30, pageY = 40\<rparr>]\<rparr>"
    by (simp add: touchStartHandler_two TouchHandler_def assign_def)
  have t: "tracked ?h" by (rule tracked.touchstart) (rule tracked.new)
  have m: "touchMoveHandler \<lparr>touches = [\<lparr>pageX = 90, pageY = 120\<rparr>]\<rparr> ?h
             = (?h, [preventDefault], Some TypeError)"
    by (rule touchMoveHandler_zooming_throws) (simp_all add: h item_def)
  show ?thesis
    using t m by (simp add: h)
qed

text \<open>
  C7. A touch-start or touch-end whose number of contacts is neither 1 nor 2 puts the
  tracker in mode 0, with no error and no call, and leaves the finger slots alone. From
  then on every touch-move is ignored: no call, no error, no change, however many follow.
\<close>

theorem touchStartHandler_idle:
  assumes "length (touches e) \<noteq> 1" and "length (touches e) \<noteq> 2"
  shows "touchStartHandler e h = (h\<lparr>mode := 0\<rparr>, [], None)
         \<and> touchEndHandler e h = (h\<lparr>mode := 0\<rparr>, [], None)
         \<and> touchMoveHandler e' (h\<lparr>mode := 0\<rparr>) = (h\<lparr>mode := 0\<rparr>, [], None)
         \<and> touchMoves es (h\<lparr>mode := 0\<rparr>) = (h\<lparr>mode := 0\<rparr>, [], replicate (length es) None)
         \<and> panCalls (fst (snd (touchMoves es (fst (touchStartHandler e h))))) = []
         \<and> zoomCalls (fst (snd (touchMoves es (fst (touchStartHandler e h))))) = []"
proof -
  have start: "touchStartHandler e h = (h\<lparr>mode := 0\<rparr>, [], None)"
    using assms by (rule touchStartHandler_other)
  have move: "touchMoveHandler e' (h\<lparr>mode := 0\<rparr>) = (h\<lparr>mode := 0\<rparr>, [], None)"
    by (simp add: touchMoveHandler_def)
  have moves: "touchMoves es (h\<lparr>mode := 0\<rparr>) = (h\<lparr>mode := 0\<rparr>, [], replicate (length es) None)"
    by (rule touchMoves_idle) simp
  show ?thesis
    by (simp add: touchEndHandler_def start move moves)
qed

theorem touchStartHandler_idle_witness:
  "touchStartHandler
     \<lparr>touches = [\<lparr>pageX = 1, pageY = 2\<rparr>, \<lparr>pageX = 3, pageY = 4\<rparr>, \<lparr>pageX = 5, pageY = 6\<rparr>]\<rparr>
     TouchHandler
   = (TouchHandler, [], None)
   \<and> touchMoves [\<lparr>touches = [\<lparr>pageX = 7, pageY = 8\<rparr>, \<lparr>pageX = 3, pageY = 4\<rparr>,
                                \<lparr>pageX = 5, pageY = 6\<rparr>]\<rparr>,
                  \<lparr>touches = [\<lparr>pageX = 9, pageY = 9\<rparr>]\<rparr>]
       TouchHandler
     = (TouchHandler, [], [None, None])
   \<and> touchStartHandler \<lparr>touches = []\<rparr> \<lparr>mode = 2, fingers = [None, None]\<rparr>
     = (TouchHandler, [], None)"
proof -
  let ?e = "\<lparr>touches = [\<lparr>pageX = 1, pageY = 2\<rparr>, \<lparr>pageX = 3, pageY = 4\<rparr>, \<lparr>pageX = 5, pageY = 6\<rparr>]\<rparr>"
  let ?es = "[\<lparr>touches = [\<lparr>pageX = 7, pageY = 8\<rparr>, \<lparr>pageX = 3, pageY = 4\<rparr>,
                                \<lparr>pageX = 5, pageY = 6\<rparr>]\<rparr>,
                  \<lparr>touches = [\<lparr>pageX = 9, pageY = 9\<rparr>]\<rparr>]"
  have l: "length (touches ?e) \<noteq> 1" "length (touches ?e) \<noteq> 2" by simp_all
  have z: "length (touches \<lparr>touches = ([] :: touch list)\<rparr>) \<noteq> 1"
    "length (touches \<lparr>touches = ([] :: touch list)\<rparr>) \<noteq> 2" by simp_all
  have a: "touchStartHandler ?e TouchHandler = (TouchHandler, [], None)"
    "touchMoves ?es TouchHandler = (TouchHandler, [], [None, None])"
    using touchStartHandler_idle [OF l, of TouchHandler undefined ?es]
    by (simp_all add: TouchHandler_def)
  have b: "touchStartHandler \<lparr>touches = []\<rparr> \<lparr>mode = 2, fingers = [None, None]\<rparr>
     = (TouchHandler, [], None)"
    using touchStartHandler_idle [OF z, of "\<lparr>mode = 2, fingers = [None, None]\<rparr>" undefined "[]"]
    by (simp add: TouchHandler_def)
  show ?thesis using a b by simp
qed

end
